theory Spec2Isabelle
  imports Main "HOL-Library.Word" "HOL-Library.Sublist"
begin

section \<open>Error values of package protonats\<close>

text \<open>
  A Go string is a sequence of bytes; \<^typ>\<open>string\<close> (a list of 8-bit characters) models
  it, and \<open>[]byte(s)\<close> is the list of the characters' codes.
\<close>

type_synonym byte = "8 word"

definition bytes_of_string :: "string \<Rightarrow> byte list" where
  "bytes_of_string s = map of_char s"

text \<open>\<open>type ServiceError struct { Code, Description, Details string }\<close>\<close>

record ServiceError =
  Code :: string
  Description :: string
  Details :: string

text \<open>The zero value that \<open>var se ServiceError\<close> declares.\<close>

definition zero_ServiceError :: ServiceError where
  "zero_ServiceError = \<lparr>Code = [], Description = [], Details = []\<rparr>"

text \<open>
  A value of a map type is a reference: \<open>nil\<close>, or the address of a map object. The
  objects themselves live in the heap of the second part of this theory.
\<close>

type_synonym addr = nat

datatype mapref = NilMap | MapRef addr

text \<open>
  The non-nil values of the interface type \<open>error\<close> that this development considers
  (a nil \<open>error\<close> is \<open>None\<close> of \<open>err option\<close>):
  \<^item> \<open>ErrorsNew msg\<close>: a leaf error carrying only its text, as \<open>errors.New(msg)\<close> makes;
    its type has none of the methods \<open>Unwrap\<close>, \<open>As\<close>;
  \<^item> \<open>Svc e\<close>: a \<open>ServiceError\<close> value;
  \<^item> \<open>Srv n\<close>: a \<open>ServerError\<close> value;
  \<^item> \<open>Wrapper text inner\<close>: an error of a type with a method \<open>Unwrap() error\<close> that
    returns \<open>inner\<close> and whose \<open>Error()\<close> is \<open>text\<close> (\<open>errors.Wrap\<close>,
    \<open>errors.WithMessage\<close>, \<open>fmt.Errorf\<close> with \<open>%w\<close>);
  \<^item> \<open>Multi text inners\<close>: an error of a type with a method \<open>Unwrap() []error\<close> that
    returns the non-nil errors \<open>inners\<close> (\<open>errors.Join\<close>);
  \<^item> \<open>SvcPtr e\<close>: a non-nil pointer \<open>*ServiceError\<close> to a struct with the fields of
    \<open>e\<close>; it is an \<open>error\<close> through the value-receiver methods of \<open>ServiceError\<close>;
  \<^item> \<open>AsError text store answer inner\<close>: an error of a type with a method
    \<open>As(any) bool\<close> of its own which, given a \<open>*ServiceError\<close>, writes \<open>store\<close> to it
    (nothing for \<open>None\<close>) and returns \<open>answer\<close>; its \<open>Error()\<close> is \<open>text\<close>, and
    \<open>inner\<close> is what its \<open>Unwrap() error\<close> returns (\<open>None\<close> for nil, or for a type
    without the method).
  Nil pointers held in an \<open>error\<close>, pointers to \<open>ServerError\<close>, types with both an \<open>As\<close>
  method and \<open>Unwrap() []error\<close>, and methods that panic are outside this universe.

  \<open>type ServerError struct { Code, Description string; Wrapped error;
  Headers map[string][]string }\<close> holds an \<open>error\<close>, so the two types are mutually
  recursive.
\<close>

datatype err =
    ErrorsNew string
  | Svc ServiceError
  | Srv ServerError
  | Wrapper string err
  | Multi string "err list"
  | SvcPtr ServiceError
  | AsError string "ServiceError option" bool "err option"
and ServerError =
    ServerError (ServerError_Code: string) (ServerError_Description: string)
      (Wrapped: "err option") (Headers: mapref)

text \<open>The predefined errors.\<close>

definition ErrMarshallingFailed :: err where
  "ErrMarshallingFailed = ErrorsNew ''Failed to marshal proto message''"

definition ErrUnmarshallingFailed :: err where
  "ErrUnmarshallingFailed = ErrorsNew ''Failed to unmarshal proto message''"

subsection \<open>Text of an error\<close>

text \<open>
  \<open>fmt.Sprintf\<close> for formats whose only verb is \<open>%s\<close>, as those of the source, with
  string operands: each verb is replaced by the next operand, every other character
  is copied. A verb without an operand and operands without a verb give the markers
  the library prints; the source reaches neither.
\<close>

fun Sprintf :: "string \<Rightarrow> string list \<Rightarrow> string" where
  "Sprintf [] args =
     (case args of
        [] \<Rightarrow> []
      | _ # _ \<Rightarrow> ''%!(EXTRA '' @ concat (map (\<lambda>a. ''string='' @ a @ '', '') (butlast args))
                 @ ''string='' @ last args @ '')'')"
| "Sprintf [c] args = c # Sprintf [] args"
| "Sprintf (c # d # fmt) args =
     (if c = CHR ''%'' \<and> d = CHR ''s''
      then (case args of
              [] \<Rightarrow> ''%!s(MISSING)'' @ Sprintf fmt []
            | a # rest \<Rightarrow> a @ Sprintf fmt rest)
      else c # Sprintf (d # fmt) args)"

text \<open>\<open>func (e ServiceError) Error() string\<close>\<close>

definition ServiceError_Error :: "ServiceError \<Rightarrow> string" where
  "ServiceError_Error e =
     (if Details e = []
      then Sprintf ''%s: %s'' [Code e, Description e]
      else Sprintf ''%s: %s (%s)'' [Code e, Description e, Details e])"

text \<open>
  The method \<open>Error()\<close> of each error value, and \<open>func (n ServerError) Error() string\<close>,
  which calls it on the wrapped error.
\<close>

fun Error_err :: "err \<Rightarrow> string"
  and ServerError_Error :: "ServerError \<Rightarrow> string" where
  "Error_err (ErrorsNew msg) = msg"
| "Error_err (Svc e) = ServiceError_Error e"
| "Error_err (Srv n) = ServerError_Error n"
| "Error_err (Wrapper text inner) = text"
| "Error_err (Multi text inners) = text"
| "Error_err (SvcPtr e) = ServiceError_Error e"
| "Error_err (AsError text store answer inner) = text"
| "ServerError_Error (ServerError code description wrapped headers) =
     (case wrapped of
        Some w \<Rightarrow> description @ '': '' @ Error_err w
      | None \<Rightarrow> description)"

text \<open>\<open>func (n ServerError) Cause() error\<close>\<close>

definition Cause :: "ServerError \<Rightarrow> err option" where
  "Cause n = Wrapped n"

text \<open>
  \<open>func (n ServerError) GetWrapped() []byte\<close>. The result \<open>None\<close> is the nil slice;
  the conversion \<open>[]byte(s)\<close> gives a non-nil slice, also for the empty string.
\<close>

definition GetWrapped :: "ServerError \<Rightarrow> byte list option" where
  "GetWrapped n =
     (case Wrapped n of
        Some w \<Rightarrow> Some (bytes_of_string (Error_err w))
      | None \<Rightarrow> None)"

subsection \<open>Construction\<close>

text \<open>
  \<open>func WrapServerErr(err error, code, description string) ServerError\<close>: the literal
  leaves \<open>Headers\<close> at its zero value, the nil map.
\<close>

definition WrapServerErr :: "err option \<Rightarrow> string \<Rightarrow> string \<Rightarrow> ServerError" where
  "WrapServerErr e code description = ServerError code description e NilMap"

definition NewServerErr :: "string \<Rightarrow> string \<Rightarrow> ServerError" where
  "NewServerErr code description = WrapServerErr None code description"

subsection \<open>Discrimination\<close>

text \<open>
  \<open>errors.As(err, &se)\<close> of the error library, for a target of type \<open>*ServiceError\<close>.
  The library walks from \<open>err\<close>. At each error: if its type is assignable to the
  target's element type, the error is stored in the target and the walk ends with
  \<open>true\<close>; else, if the type has a method \<open>As\<close>, the method is called on the target and
  the walk ends with \<open>true\<close> when it answers so; else the walk continues with the
  result of \<open>Unwrap() error\<close>, or depth-first through the results of
  \<open>Unwrap() []error\<close>, and ends with \<open>false\<close> at a nil result or at an error with
  neither method. \<open>As_walk\<close> takes the value of the target before the walk and returns
  its value after it and the answer. The type \<open>*ServiceError\<close> is not assignable to
  \<open>ServiceError\<close>; a \<open>ServerError\<close> has a method \<open>Cause\<close> but no method \<open>Unwrap\<close>: the
  walk ends at either.
\<close>

fun As_walk :: "err \<Rightarrow> ServiceError \<Rightarrow> ServiceError \<times> bool"
  and As_walk_list :: "err list \<Rightarrow> ServiceError \<Rightarrow> ServiceError \<times> bool" where
  "As_walk (Svc e) target = (e, True)"
| "As_walk (ErrorsNew msg) target = (target, False)"
| "As_walk (Srv n) target = (target, False)"
| "As_walk (SvcPtr e) target = (target, False)"
| "As_walk (Wrapper text inner) target = As_walk inner target"
| "As_walk (Multi text inners) target = As_walk_list inners target"
| "As_walk (AsError text store answer inner) target =
     (let target' = (case store of Some s \<Rightarrow> s | None \<Rightarrow> target)
      in if answer then (target', True)
         else (case inner of
                 None \<Rightarrow> (target', False)
               | Some x \<Rightarrow> As_walk x target'))"
| "As_walk_list [] target = (target, False)"
| "As_walk_list (e # es) target =
     (let (target', found) = As_walk e target
      in if found then (target', True) else As_walk_list es target')"

text \<open>
  The call returns the target's value after the call and the flag; a nil \<open>err\<close> gives
  \<open>false\<close> and leaves the target as it was.
\<close>

definition errors_As :: "err option \<Rightarrow> ServiceError \<Rightarrow> ServiceError \<times> bool" where
  "errors_As e target =
     (case e of
        None \<Rightarrow> (target, False)
      | Some x \<Rightarrow> As_walk x target)"

text \<open>\<open>func (e ServiceError) Is(target error) bool\<close>\<close>

definition ServiceError_Is :: "ServiceError \<Rightarrow> err option \<Rightarrow> bool" where
  "ServiceError_Is e target = snd (errors_As target zero_ServiceError)"

text \<open>\<open>func IsServiceError(err error) bool\<close>\<close>

definition IsServiceError :: "err option \<Rightarrow> bool" where
  "IsServiceError e = snd (errors_As e zero_ServiceError)"

text \<open>\<open>func AsServiceError(err error) (ServiceError, bool)\<close>\<close>

definition AsServiceError :: "err option \<Rightarrow> ServiceError \<times> bool" where
  "AsServiceError e = errors_As e zero_ServiceError"

text \<open>
  The chain of an error as the error library defines it: the error itself, followed
  by the chains of what its \<open>Unwrap\<close> method returns, in order.
\<close>

fun unwrap_chain :: "err \<Rightarrow> err list" where
  "unwrap_chain (ErrorsNew msg) = [ErrorsNew msg]"
| "unwrap_chain (Svc e) = [Svc e]"
| "unwrap_chain (Srv n) = [Srv n]"
| "unwrap_chain (SvcPtr e) = [SvcPtr e]"
| "unwrap_chain (Wrapper text inner) = Wrapper text inner # unwrap_chain inner"
| "unwrap_chain (Multi text inners) = Multi text inners # concat (map unwrap_chain inners)"
| "unwrap_chain (AsError text store answer inner) =
     AsError text store answer inner
       # (case inner of None \<Rightarrow> [] | Some x \<Rightarrow> unwrap_chain x)"

text \<open>
  An error at which the walk of \<open>errors.As\<close> ends with \<open>true\<close>: a \<open>ServiceError\<close> value,
  or an error whose \<open>As\<close> method answers so; what the walk writes to the target there;
  and whether the error has an \<open>As\<close> method at all.
\<close>

fun accepts :: "err \<Rightarrow> bool" where
  "accepts (Svc e) = True"
| "accepts (AsError text store answer inner) = answer"
| "accepts (ErrorsNew msg) = False"
| "accepts (Srv n) = False"
| "accepts (SvcPtr e) = False"
| "accepts (Wrapper text inner) = False"
| "accepts (Multi text inners) = False"

fun stored :: "err \<Rightarrow> ServiceError option" where
  "stored (Svc e) = Some e"
| "stored (AsError text store answer inner) = store"
| "stored (ErrorsNew msg) = None"
| "stored (Srv n) = None"
| "stored (SvcPtr e) = None"
| "stored (Wrapper text inner) = None"
| "stored (Multi text inners) = None"

fun has_As_method :: "err \<Rightarrow> bool" where
  "has_As_method (AsError text store answer inner) = True"
| "has_As_method (Svc e) = False"
| "has_As_method (ErrorsNew msg) = False"
| "has_As_method (Srv n) = False"
| "has_As_method (SvcPtr e) = False"
| "has_As_method (Wrapper text inner) = False"
| "has_As_method (Multi text inners) = False"

text \<open>
  The wrapping chain in the words of the specification, for which an error wraps what
  its \<open>Unwrap\<close> method returns and a \<open>ServerError\<close> wraps its cause; and the condition
  "\<open>err\<close> is a \<open>ServiceError\<close> or wraps one somewhere in its wrapping chain". They are
  the reading of the specification against which the helpers are compared; the helpers
  do not use them.
\<close>

fun wrapping_chain :: "err \<Rightarrow> err list" where
  "wrapping_chain (ErrorsNew msg) = [ErrorsNew msg]"
| "wrapping_chain (Svc e) = [Svc e]"
| "wrapping_chain (Srv (ServerError code description wrapped headers)) =
     Srv (ServerError code description wrapped headers)
       # (case wrapped of None \<Rightarrow> [] | Some x \<Rightarrow> wrapping_chain x)"
| "wrapping_chain (SvcPtr e) = [SvcPtr e]"
| "wrapping_chain (Wrapper text inner) = Wrapper text inner # wrapping_chain inner"
| "wrapping_chain (Multi text inners) = Multi text inners # concat (map wrapping_chain inners)"
| "wrapping_chain (AsError text store answer inner) =
     AsError text store answer inner
       # (case inner of None \<Rightarrow> [] | Some x \<Rightarrow> wrapping_chain x)"

fun is_ServiceError :: "err \<Rightarrow> bool" where
  "is_ServiceError (Svc e) = True"
| "is_ServiceError (ErrorsNew msg) = False"
| "is_ServiceError (Srv n) = False"
| "is_ServiceError (SvcPtr e) = False"
| "is_ServiceError (Wrapper text inner) = False"
| "is_ServiceError (Multi text inners) = False"
| "is_ServiceError (AsError text store answer inner) = False"

definition wraps_ServiceError :: "err \<Rightarrow> bool" where
  "wraps_ServiceError e = list_ex is_ServiceError (wrapping_chain e)"

text \<open>
  A \<open>ServiceError\<close> as a requester receives it, wrapped once by a caller with
  \<open>fmt.Errorf("lookup: %w", err)\<close>; the same error held as the cause of a
  \<open>ServerError\<close>; and an error that is no \<open>ServiceError\<close> and wraps nothing, whose \<open>As\<close>
  method fills a \<open>*ServiceError\<close> target.
\<close>

definition not_found :: ServiceError where
  "not_found = \<lparr>Code = ''404'', Description = ''no such user'', Details = []\<rparr>"

definition wrapped_not_found :: err where
  "wrapped_not_found = Wrapper ''lookup: 404: no such user'' (Svc not_found)"

definition caused_by_not_found :: err where
  "caused_by_not_found = Srv (WrapServerErr (Some (Svc not_found)) ''500'' ''lookup failed'')"

definition as_only :: err where
  "as_only = AsError ''remote failure'' (Some not_found) True None"

section \<open>Header maps in the heap\<close>

text \<open>
  A slice value is \<open>nil\<close> or a window on a backing array: the array's address, the
  offset of the window, its length and its capacity. Two slices on one array share
  its cells.
\<close>

datatype slice =
    NilSlice
  | Slice addr nat nat nat

text \<open>\<open>nats.Header\<close>, that is \<open>map[string][]string\<close>: the contents of one map object.\<close>

type_synonym nats_Header = "string \<rightharpoonup> slice"

text \<open>
  The heap: the map objects, the backing arrays of slices, the next free address of
  each kind, and the capacity the runtime chooses when \<open>append\<close> has to move a slice
  (from the old capacity and the length needed; the language fixes only that it
  suffices).
\<close>

record heap =
  maps :: "addr \<Rightarrow> nats_Header"
  arrays :: "addr \<Rightarrow> string list"
  lim_maps :: addr
  lim_arrays :: addr
  growcap :: "nat \<Rightarrow> nat \<Rightarrow> nat"

text \<open>The run-time panics of the operations below.\<close>

datatype panic = NilMapAssignment | NilDereference

fun len :: "slice \<Rightarrow> nat" where
  "len NilSlice = 0"
| "len (Slice a off n c) = n"

fun cap :: "slice \<Rightarrow> nat" where
  "cap NilSlice = 0"
| "cap (Slice a off n c) = c"

text \<open>The strings a slice shows: the cells of its window.\<close>

fun elements :: "heap \<Rightarrow> slice \<Rightarrow> string list" where
  "elements h NilSlice = []"
| "elements h (Slice a off n c) = take n (drop off (arrays h a))"

definition new_array :: "string list \<Rightarrow> heap \<Rightarrow> addr \<times> heap" where
  "new_array xs h =
     (lim_arrays h,
      h\<lparr>arrays := (arrays h)(lim_arrays h := xs), lim_arrays := Suc (lim_arrays h)\<rparr>)"

text \<open>The composite literal \<open>[]string{value}\<close>: a new array of one cell.\<close>

definition slice_literal :: "string \<Rightarrow> heap \<Rightarrow> slice \<times> heap" where
  "slice_literal v h = (let (a, h') = new_array [v] h in (Slice a 0 1 1, h'))"

text \<open>
  \<open>append(s, v)\<close> when the capacity is used up (always so for a nil slice): the
  elements move to a new array of the capacity the runtime chooses, at least one more
  than the length, the cells after \<open>v\<close> holding the zero value.
\<close>

definition grow_slice :: "slice \<Rightarrow> string \<Rightarrow> heap \<Rightarrow> slice \<times> heap" where
  "grow_slice s v h =
     (let c = max (Suc (len s)) (growcap h (cap s) (Suc (len s)));
          (a, h') = new_array (elements h s @ v # replicate (c - Suc (len s)) []) h
      in (Slice a 0 (Suc (len s)) c, h'))"

text \<open>
  \<open>append(s, v)\<close>: with spare capacity the value is written into the cell after the
  window, in the array \<open>s\<close> shares with every other slice on it. (The capacity of a
  slice ends within its array, so the cell exists.)
\<close>

fun append_slice :: "slice \<Rightarrow> string \<Rightarrow> heap \<Rightarrow> slice \<times> heap" where
  "append_slice NilSlice v h = grow_slice NilSlice v h"
| "append_slice (Slice a off n c) v h =
     (if n < c
      then (Slice a off (Suc n) c, h\<lparr>arrays := (arrays h)(a := (arrays h a)[off + n := v])\<rparr>)
      else grow_slice (Slice a off n c) v h)"

text \<open>\<open>make(nats.Header)\<close>: a new, empty map object.\<close>

definition make_Header :: "heap \<Rightarrow> mapref \<times> heap" where
  "make_Header h =
     (MapRef (lim_maps h),
      h\<lparr>maps := (maps h)(lim_maps h := Map.empty), lim_maps := Suc (lim_maps h)\<rparr>)"

text \<open>The index expression \<open>m[k]\<close>: the zero value, a nil slice, for a missing key or a nil map.\<close>

fun index_map :: "heap \<Rightarrow> mapref \<Rightarrow> string \<Rightarrow> slice" where
  "index_map h NilMap k = NilSlice"
| "index_map h (MapRef r) k = (case maps h r k of None \<Rightarrow> NilSlice | Some s \<Rightarrow> s)"

text \<open>The assignment \<open>m[k] = s\<close>: a run-time panic on a nil map.\<close>

fun assign_map :: "mapref \<Rightarrow> string \<Rightarrow> slice \<Rightarrow> heap \<Rightarrow> panic + heap" where
  "assign_map NilMap k s h = Inl NilMapAssignment"
| "assign_map (MapRef r) k s h = Inr (h\<lparr>maps := (maps h)(r := (maps h r)(k \<mapsto> s))\<rparr>)"

text \<open>The test \<open>len(m) == 0\<close>, true of a nil map.\<close>

fun len_map_is_0 :: "heap \<Rightarrow> mapref \<Rightarrow> bool" where
  "len_map_is_0 h NilMap = True"
| "len_map_is_0 h (MapRef r) = (maps h r = Map.empty)"

text \<open>
  \<open>func (n ServerError) ensureHeader()\<close>. The receiver is passed by value: the function
  assigns to its own copy of the struct. The model returns that copy and the heap,
  which holds the new map; the caller's struct is not touched, and the callers below
  go on with their own \<open>n\<close>.
\<close>

definition ensureHeader :: "ServerError \<Rightarrow> heap \<Rightarrow> ServerError \<times> heap" where
  "ensureHeader n h =
     (if Headers n = NilMap
      then (let (r, h') = make_Header h
            in (ServerError (ServerError_Code n) (ServerError_Description n) (Wrapped n) r, h'))
      else (n, h))"

text \<open>\<open>func (n ServerError) AddHeader(header, value string) ServerError\<close>\<close>

definition AddHeader ::
  "ServerError \<Rightarrow> string \<Rightarrow> string \<Rightarrow> heap \<Rightarrow> panic + ServerError \<times> heap" where
  "AddHeader n header v h =
     (let (callee, h1) = ensureHeader n h;
          (s, h2) = append_slice (index_map h1 (Headers n) header) v h1
      in case assign_map (Headers n) header s h2 of
           Inl p \<Rightarrow> Inl p
         | Inr h3 \<Rightarrow> Inr (n, h3))"

text \<open>\<open>func (n ServerError) SetHeader(header, value string) ServerError\<close>\<close>

definition SetHeader ::
  "ServerError \<Rightarrow> string \<Rightarrow> string \<Rightarrow> heap \<Rightarrow> panic + ServerError \<times> heap" where
  "SetHeader n header v h =
     (let (callee, h1) = ensureHeader n h;
          (s, h2) = slice_literal v h1
      in case assign_map (Headers n) header s h2 of
           Inl p \<Rightarrow> Inl p
         | Inr h3 \<Rightarrow> Inr (n, h3))"

text \<open>\<open>func (n ServerError) GetHeaders() micro.Headers\<close>: the map reference of \<open>n\<close>.\<close>

definition GetHeaders :: "ServerError \<Rightarrow> heap \<Rightarrow> mapref \<times> heap" where
  "GetHeaders n h = (let (callee, h1) = ensureHeader n h in (Headers n, h1))"


text \<open>
  The fields of \<open>nats.Msg\<close> that carry the message; the decorator of
  \<open>GetOptHeaders\<close> reads and writes \<open>Header\<close> only.
\<close>

record Msg =
  Subject :: string
  Reply :: string
  Header :: mapref
  Data :: "byte list option"

text \<open>
  \<open>micro.RespondOpt\<close>, that is \<open>func(m *nats.Msg)\<close>: from the message behind the pointer
  (\<open>None\<close> for a nil pointer) and the heap at the time of the call, to the message and
  the heap after it.
\<close>

type_synonym RespondOpt = "Msg option \<Rightarrow> heap \<Rightarrow> panic + Msg option \<times> heap"

text \<open>
  \<open>func (n ServerError) GetOptHeaders() micro.RespondOpt\<close>. The test runs on the heap
  \<open>h\<close> of the call; the closure returned holds the copy \<open>n\<close> and runs on the heap of its own
  call. The loop \<open>for k, v := range n.Headers { m.Header[k] = v }\<close> assigns every entry of
  the one map to the other, in an order that does not matter as the keys differ: the
  message's map becomes itself overridden by the entries of \<open>n.Headers\<close>.
\<close>

definition GetOptHeaders :: "ServerError \<Rightarrow> heap \<Rightarrow> RespondOpt" where
  "GetOptHeaders n h =
     (if Headers n = NilMap \<or> len_map_is_0 h (Headers n)
      then (\<lambda>m h'. Inr (m, h'))
      else (\<lambda>m h'.
        case m of
          None \<Rightarrow> Inl NilDereference
        | Some msg \<Rightarrow>
            (case Header msg of
               NilMap \<Rightarrow> Inr (Some (msg\<lparr>Header := Headers n\<rparr>), h')
             | MapRef rm \<Rightarrow>
                 (case Headers n of
                    NilMap \<Rightarrow> Inr (Some msg, h')
                  | MapRef rn \<Rightarrow>
                      Inr (Some msg, h'\<lparr>maps := (maps h')(rm := maps h' rm ++ maps h' rn)\<rparr>)))))"

subsection \<open>What a holder of a map reference observes\<close>

text \<open>The headers read through a map reference: for each key, the strings of its slice.\<close>

fun header_view :: "heap \<Rightarrow> mapref \<Rightarrow> (string \<rightharpoonup> string list)" where
  "header_view h NilMap = Map.empty"
| "header_view h (MapRef r) = (\<lambda>k. map_option (elements h) (maps h r k))"

text \<open>The headers of a \<open>ServerError\<close> as \<open>GetHeaders()\<close> shows them.\<close>

definition observed :: "ServerError \<Rightarrow> heap \<Rightarrow> (string \<rightharpoonup> string list)" where
  "observed n h = (let (m, h') = GetHeaders n h in header_view h' m)"



text \<open>
  The heaps the runtime can be in: every slice held in a map lies on an allocated
  array, its length within its capacity and its capacity within the array.
\<close>

fun slice_ok :: "heap \<Rightarrow> slice \<Rightarrow> bool" where
  "slice_ok h NilSlice = True"
| "slice_ok h (Slice a off n c) =
     (a < lim_arrays h \<and> n \<le> c \<and> off + c \<le> length (arrays h a))"

definition wf_heap :: "heap \<Rightarrow> bool" where
  "wf_heap h = (\<forall>r k s. maps h r k = Some s \<longrightarrow> slice_ok h s)"

subsection \<open>Concrete heaps\<close>

text \<open>A heap with nothing allocated; its runtime doubles the capacity of a moved slice.\<close>

definition empty_heap :: heap where
  "empty_heap = \<lparr>maps = (\<lambda>r. Map.empty), arrays = (\<lambda>a. []), lim_maps = 0, lim_arrays = 0,
     growcap = (\<lambda>c n. 2 * c)\<rparr>"

text \<open>
  A base value with an initialised, empty header map (as the struct literal
  \<open>ServerError{Code: "E", Description: "failed", Headers: map[string][]string{}}\<close> or
  \<open>WithHeaders\<close> give), a value constructed on its own and given the same map by
  \<open>WithHeaders\<close>, and the heaps after \<open>a := base.AddHeader("X", "a")\<close> and then
  \<open>b := base.SetHeader("Y", "b")\<close>.
\<close>

definition shared_base :: ServerError where
  "shared_base = ServerError ''E'' ''failed'' None (MapRef 0)"

definition shared_other :: ServerError where
  "shared_other = ServerError ''F'' ''failed too'' None (MapRef 0)"

definition shared_heap0 :: heap where
  "shared_heap0 = empty_heap\<lparr>lim_maps := 1\<rparr>"

definition shared_heap1 :: heap where
  "shared_heap1 = shared_heap0\<lparr>
     maps := (maps shared_heap0)(0 := [''X'' \<mapsto> Slice 0 0 1 1]),
     arrays := (arrays shared_heap0)(0 := [''a'']),
     lim_arrays := 1\<rparr>"

definition shared_heap2 :: heap where
  "shared_heap2 = shared_heap1\<lparr>
     maps := (maps shared_heap1)(0 := [''X'' \<mapsto> Slice 0 0 1 1, ''Y'' \<mapsto> Slice 1 0 1 1]),
     arrays := (arrays shared_heap1)(1 := [''b'']),
     lim_arrays := 2\<rparr>"

text \<open>
  Two values with a map object each, \<open>{A: [x]}\<close> at address 0 and \<open>{A: [y]}\<close> at
  address 1, and a message whose header is the second map.
\<close>

definition two_maps_heap :: heap where
  "two_maps_heap = empty_heap\<lparr>
     maps := (\<lambda>r. Map.empty)(0 := [''A'' \<mapsto> Slice 0 0 1 1], 1 := [''A'' \<mapsto> Slice 1 0 1 1]),
     arrays := (\<lambda>a. [])(0 := [''x''], 1 := [''y'']),
     lim_maps := 2,
     lim_arrays := 2\<rparr>"

definition error_0 :: ServerError where
  "error_0 = ServerError ''E'' ''failed'' None (MapRef 0)"

definition error_1 :: ServerError where
  "error_1 = ServerError ''F'' ''failed too'' None (MapRef 1)"

definition msg_1 :: Msg where
  "msg_1 = \<lparr>Subject = ''reply.to'', Reply = [], Header = MapRef 1, Data = None\<rparr>"

definition msg_no_header :: Msg where
  "msg_no_header = \<lparr>Subject = ''reply.to'', Reply = [], Header = NilMap, Data = None\<rparr>"

text \<open>
  Two map objects whose slices for \<open>A\<close> lie on one array of two cells: the first shows
  \<open>[x]\<close> and has a spare cell, the second shows \<open>[x, y]\<close>; and the heap after
  \<open>AddHeader("A", "z")\<close> through the first.
\<close>

definition spare_heap :: heap where
  "spare_heap = empty_heap\<lparr>
     maps := (\<lambda>r. Map.empty)(0 := [''A'' \<mapsto> Slice 0 0 1 2], 1 := [''A'' \<mapsto> Slice 0 0 2 2]),
     arrays := (\<lambda>a. [])(0 := [''x'', ''y'']),
     lim_maps := 2,
     lim_arrays := 1\<rparr>"

definition spare_heap_after :: heap where
  "spare_heap_after = spare_heap\<lparr>
     arrays := (arrays spare_heap)(0 := [''x'', ''z'']),
     maps := (maps spare_heap)(0 := [''A'' \<mapsto> Slice 0 0 2 2])\<rparr>"

section \<open>Properties of the error values\<close>

lemma Sprintf_two: "Sprintf ''%s: %s'' [a, b] = a @ '': '' @ b"
  by simp

lemma Sprintf_three: "Sprintf ''%s: %s (%s)'' [a, b, c] = a @ '': '' @ b @ '' ('' @ c @ '')''"
  by simp

lemma find_append_cases:
  "find P (xs @ ys) = (case find P xs of None \<Rightarrow> find P ys | Some x \<Rightarrow> Some x)"
  by (induction xs) simp_all

lemma find_None_list_ex: "(find P xs = None) = (\<not> list_ex P xs)"
  by (induction xs) simp_all

lemma As_walk_answer:
  "snd (As_walk e t) = list_ex accepts (unwrap_chain e)"
  "snd (As_walk_list es t) = list_ex accepts (concat (map unwrap_chain es))"
  by (induction e t and es t rule: As_walk_As_walk_list.induct)
     (auto simp: Let_def split: option.splits prod.splits)

lemma As_walk_first:
  "find accepts (unwrap_chain e) = Some x \<Longrightarrow> stored x = Some s \<Longrightarrow> As_walk e t = (s, True)"
  "find accepts (concat (map unwrap_chain es)) = Some x \<Longrightarrow> stored x = Some s \<Longrightarrow>
     As_walk_list es t = (s, True)"
proof (induction e t and es t rule: As_walk_As_walk_list.induct)
  case (9 e es target)
  obtain t' f where w: "As_walk e target = (t', f)" by (cases "As_walk e target")
  have f: "f = list_ex accepts (unwrap_chain e)"
    using As_walk_answer(1) [of e target] w by simp
  show ?case
  proof (cases f)
    case True
    with f obtain y where y: "find accepts (unwrap_chain e) = Some y"
      by (cases "find accepts (unwrap_chain e)") (simp_all add: find_None_list_ex)
    with "9.prems" have "y = x" by (simp add: find_append_cases)
    with y "9.prems" "9.IH"(1) have "As_walk e target = (s, True)" by simp
    with w True show ?thesis by simp
  next
    case False
    with f have "find accepts (unwrap_chain e) = None" by (simp add: find_None_list_ex)
    with "9.prems" have "find accepts (concat (map unwrap_chain es)) = Some x"
      by (simp add: find_append_cases)
    with "9.IH"(2) [OF w [symmetric] refl] False "9.prems" w show ?thesis by simp
  qed
qed (auto simp: Let_def split: option.splits if_splits)

lemma As_walk_untouched:
  "\<not> list_ex accepts (unwrap_chain e) \<Longrightarrow> \<not> list_ex has_As_method (unwrap_chain e) \<Longrightarrow>
     As_walk e t = (t, False)"
  "\<not> list_ex accepts (concat (map unwrap_chain es)) \<Longrightarrow>
   \<not> list_ex has_As_method (concat (map unwrap_chain es)) \<Longrightarrow>
     As_walk_list es t = (t, False)"
  by (induction e t and es t rule: As_walk_As_walk_list.induct)
     (auto simp: Let_def split: option.splits prod.splits)

text \<open>
  C4 fails in both directions. An error that is no \<open>ServiceError\<close> and wraps nothing,
  but whose type has an \<open>As\<close> method that fills a \<open>*ServiceError\<close>, makes both helpers
  succeed. A \<open>ServiceError\<close> held as the cause of a \<open>ServerError\<close>, wrapped in the
  words of the specification, is not found: both helpers fail.
\<close>

theorem ServiceError_or_wraps_counterexample:
  "IsServiceError (Some as_only)
   \<and> AsServiceError (Some as_only) = (not_found, True)
   \<and> wrapping_chain as_only = [as_only]
   \<and> \<not> wraps_ServiceError as_only
   \<and> wraps_ServiceError caused_by_not_found
   \<and> \<not> IsServiceError (Some caused_by_not_found)"
  by (simp add: IsServiceError_def AsServiceError_def errors_As_def as_only_def
      caused_by_not_found_def WrapServerErr_def wraps_ServiceError_def)

text \<open>
  C4, as the code has it. \<open>IsServiceError(err)\<close> is true exactly when the chain of
  \<open>err\<close> along \<open>Unwrap\<close> holds a \<open>ServiceError\<close> value or an error whose \<open>As\<close> method
  answers true; \<open>AsServiceError(err)\<close> succeeds on the same inputs. When the first
  such error of the chain is a \<open>ServiceError\<close> value, that value is returned, field by
  field; when it is an error whose \<open>As\<close> method stores a value, that value is
  returned. When the chain holds no such error and no error with an \<open>As\<close> method,
  \<open>AsServiceError\<close> returns the zero value and \<open>false\<close>. Both helpers fail on a pointer
  \<open>*ServiceError\<close> and on a \<open>ServerError\<close> that holds a \<open>ServiceError\<close> as its cause.
  \<open>ServiceError.Is(target)\<close> answers as \<open>IsServiceError(target)\<close> does, whatever the
  receiver.
\<close>

theorem AsServiceError_unwrap_chain:
  "IsServiceError (Some e) = list_ex accepts (unwrap_chain e)
   \<and> snd (AsServiceError (Some e)) = IsServiceError (Some e)
   \<and> (find accepts (unwrap_chain e) = Some (Svc s) \<longrightarrow> AsServiceError (Some e) = (s, True))
   \<and> (find accepts (unwrap_chain e) = Some (AsError label (Some s) True inner) \<longrightarrow>
        AsServiceError (Some e) = (s, True))
   \<and> (\<not> list_ex accepts (unwrap_chain e) \<and> \<not> list_ex has_As_method (unwrap_chain e) \<longrightarrow>
        AsServiceError (Some e) = (zero_ServiceError, False))
   \<and> IsServiceError (Some (SvcPtr s)) = False
   \<and> IsServiceError (Some (Srv (WrapServerErr (Some (Svc s)) code description))) = False
   \<and> ServiceError_Is r target = IsServiceError target"
proof -
  have a: "AsServiceError (Some e) = As_walk e zero_ServiceError"
    by (simp add: AsServiceError_def errors_As_def)
  have i: "IsServiceError (Some e) = snd (As_walk e zero_ServiceError)"
    by (simp add: IsServiceError_def errors_As_def)
  have c1: "IsServiceError (Some e) = list_ex accepts (unwrap_chain e)"
    unfolding i by (rule As_walk_answer)
  have c2: "snd (AsServiceError (Some e)) = IsServiceError (Some e)"
    by (simp add: a i)
  have c3: "AsServiceError (Some e) = (s, True)"
    if "find accepts (unwrap_chain e) = Some (Svc s)"
    unfolding a using that by (rule As_walk_first) simp
  have c4: "AsServiceError (Some e) = (s, True)"
    if "find accepts (unwrap_chain e) = Some (AsError label (Some s) True inner)"
    unfolding a using that by (rule As_walk_first) simp
  have c5: "AsServiceError (Some e) = (zero_ServiceError, False)"
    if "\<not> list_ex accepts (unwrap_chain e) \<and> \<not> list_ex has_As_method (unwrap_chain e)"
    unfolding a using that by (intro As_walk_untouched) simp_all
  have c6: "IsServiceError (Some (SvcPtr s)) = False"
    "IsServiceError (Some (Srv (WrapServerErr (Some (Svc s)) code description))) = False"
    by (simp_all add: IsServiceError_def errors_As_def)
  have c7: "ServiceError_Is r target = IsServiceError target"
    by (simp add: ServiceError_Is_def IsServiceError_def)
  from c1 c2 c3 c4 c5 c6 c7 show ?thesis by blast
qed

text \<open>
  At the wrapped \<open>ServiceError\<close> both helpers succeed and \<open>AsServiceError\<close> returns
  the error inside; at the error with the \<open>As\<close> method it returns what the method
  stores; at the \<open>ServerError\<close> holding a \<open>ServiceError\<close> as cause, whose chain is the
  \<open>ServerError\<close> alone, both fail.
\<close>

theorem AsServiceError_unwrap_chain_witness:
  "find accepts (unwrap_chain wrapped_not_found) = Some (Svc not_found)
   \<and> IsServiceError (Some wrapped_not_found)
   \<and> AsServiceError (Some wrapped_not_found) = (not_found, True)
   \<and> ServiceError_Is zero_ServiceError (Some wrapped_not_found)
   \<and> find accepts (unwrap_chain as_only) = Some (AsError ''remote failure'' (Some not_found) True None)
   \<and> AsServiceError (Some as_only) = (not_found, True)
   \<and> \<not> list_ex accepts (unwrap_chain caused_by_not_found)
   \<and> \<not> list_ex has_As_method (unwrap_chain caused_by_not_found)
   \<and> \<not> IsServiceError (Some caused_by_not_found)
   \<and> AsServiceError (Some caused_by_not_found) = (zero_ServiceError, False)"
proof -
  have f1: "find accepts (unwrap_chain wrapped_not_found) = Some (Svc not_found)"
    by (simp add: wrapped_not_found_def)
  have f2: "find accepts (unwrap_chain as_only)
      = Some (AsError ''remote failure'' (Some not_found) True None)"
    by (simp add: as_only_def)
  have f3: "\<not> list_ex accepts (unwrap_chain caused_by_not_found)"
    "\<not> list_ex has_As_method (unwrap_chain caused_by_not_found)"
    by (simp_all add: caused_by_not_found_def)
  have l1: "list_ex accepts (unwrap_chain wrapped_not_found)"
    by (simp add: wrapped_not_found_def)
  note t1 = AsServiceError_unwrap_chain
    [where e = wrapped_not_found and s = not_found and r = zero_ServiceError
      and target = "Some wrapped_not_found"]
  note t2 = AsServiceError_unwrap_chain
    [where e = as_only and s = not_found and label = "''remote failure''" and inner = None]
  note t3 = AsServiceError_unwrap_chain [where e = caused_by_not_found]
  from t1 f1 l1 have w: "IsServiceError (Some wrapped_not_found)"
    "AsServiceError (Some wrapped_not_found) = (not_found, True)"
    "ServiceError_Is zero_ServiceError (Some wrapped_not_found)"
    by simp_all
  from t2 f2 have o: "AsServiceError (Some as_only) = (not_found, True)"
    by simp
  from t3 f3 have c: "\<not> IsServiceError (Some caused_by_not_found)"
    "AsServiceError (Some caused_by_not_found) = (zero_ServiceError, False)"
    by simp_all
  from f1 f2 f3 w o c show ?thesis by simp
qed

text \<open>
  C9. \<open>IsServiceError\<close> is false on a plain error, on the two marshalling sentinels
  and on every \<open>ServerError\<close>, whatever it wraps.
\<close>

theorem IsServiceError_other_errors:
  "IsServiceError (Some (ErrorsNew msg)) = False
   \<and> IsServiceError (Some ErrMarshallingFailed) = False
   \<and> IsServiceError (Some ErrUnmarshallingFailed) = False
   \<and> IsServiceError (Some (Srv n)) = False"
  by (simp add: IsServiceError_def errors_As_def ErrMarshallingFailed_def
        ErrUnmarshallingFailed_def)

text \<open>
  C10. On a nil error \<open>IsServiceError\<close> is false and \<open>AsServiceError\<close> returns the
  zero \<open>ServiceError\<close>, all three fields empty, with \<open>false\<close>. The target the two
  functions pass to \<open>errors.As\<close> is the address of a local \<open>ServiceError\<close>, which the
  library accepts, so the call has no failing branch.
\<close>

theorem ServiceError_nil:
  "IsServiceError None = False
   \<and> AsServiceError None = (zero_ServiceError, False)
   \<and> Code zero_ServiceError = []
   \<and> Description zero_ServiceError = []
   \<and> Details zero_ServiceError = []"
  by (simp add: IsServiceError_def AsServiceError_def errors_As_def zero_ServiceError_def)

text \<open>
  C6. The text of \<open>NewServerErr(code, description)\<close> is the description; the text of
  \<open>WrapServerErr(cause, code, description)\<close> for a non-nil cause is the description,
  \<open>": "\<close> and the text of the cause, and so on through a cause that is itself a
  \<open>ServerError\<close>.
\<close>

theorem ServerError_Error_text:
  "ServerError_Error (NewServerErr code description) = description
   \<and> ServerError_Error (WrapServerErr (Some cause) code description)
       = description @ '': '' @ Error_err cause
   \<and> ServerError_Error (WrapServerErr (Some (Srv (WrapServerErr (Some cause) code' description')))
         code description)
       = description @ '': '' @ description' @ '': '' @ Error_err cause"
  by (simp add: NewServerErr_def WrapServerErr_def)

lemma unat_of_char: "unat (of_char c :: byte) = of_char c"
proof -
  have "unat (of_nat (of_char c) :: byte) = of_char c mod 256"
    by (simp add: unat_of_nat)
  then show ?thesis by (simp add: of_nat_of_char)
qed

lemma codes_of_bytes: "map unat (bytes_of_string s) = map of_char s"
  by (simp add: bytes_of_string_def unat_of_char)

lemma chars_of_bytes: "map (\<lambda>b. char_of (unat b)) (bytes_of_string s) = s"
  by (simp add: bytes_of_string_def unat_of_char comp_def)

text \<open>
  C7. Without a cause \<open>GetWrapped()\<close> is the nil slice, not an empty one. With a cause
  it is a non-nil slice with one byte for each character of the cause's text, in order:
  the value of each byte is the code of its character, so reading the bytes back as
  characters gives the text, and the slice is empty exactly when the text is. For the
  cause \<open>disk full\<close> the bytes are 100, 105, 115, 107, 32, 102, 117, 108, 108.
\<close>

theorem GetWrapped_absent_or_text:
  "GetWrapped (ServerError code description None headers) = None
   \<and> GetWrapped (ServerError code description None headers) \<noteq> Some []
   \<and> GetWrapped (ServerError code description (Some cause) headers) \<noteq> None
   \<and> map_option (map unat) (GetWrapped (ServerError code description (Some cause) headers))
       = Some (map of_char (Error_err cause))
   \<and> map_option (map (\<lambda>b. char_of (unat b)))
         (GetWrapped (ServerError code description (Some cause) headers))
       = Some (Error_err cause)
   \<and> map_option length (GetWrapped (ServerError code description (Some cause) headers))
       = Some (length (Error_err cause))
   \<and> (GetWrapped (ServerError code description (Some cause) headers) = Some [])
       = (Error_err cause = [])
   \<and> GetWrapped (WrapServerErr (Some (ErrorsNew ''disk full'')) ''STORAGE_FULL''
         ''cannot persist record'')
       = Some [100, 105, 115, 107, 32, 102, 117, 108, 108]"
proof -
  have g: "GetWrapped (ServerError code description (Some cause) headers)
      = Some (bytes_of_string (Error_err cause))"
    by (simp add: GetWrapped_def)
  have n: "GetWrapped (ServerError code description None headers) = None"
    by (simp add: GetWrapped_def)
  have e: "(bytes_of_string (Error_err cause) = []) = (Error_err cause = [])"
    "length (bytes_of_string (Error_err cause)) = length (Error_err cause)"
    by (simp_all add: bytes_of_string_def)
  have d: "GetWrapped (WrapServerErr (Some (ErrorsNew ''disk full'')) ''STORAGE_FULL''
         ''cannot persist record'')
       = Some [100, 105, 115, 107, 32, 102, 117, 108, 108]"
    by (simp add: GetWrapped_def WrapServerErr_def bytes_of_string_def)
  from g n e d show ?thesis
    by (simp add: codes_of_bytes chars_of_bytes)
qed

text \<open>
  C8. The text of a \<open>ServiceError\<close> is \<open>code: description\<close> when the details are
  empty and \<open>code: description (details)\<close> otherwise; the code and the description
  both occur in it.
\<close>

theorem ServiceError_Error_format:
  "ServiceError_Error e =
     (if Details e = []
      then Code e @ '': '' @ Description e
      else Code e @ '': '' @ Description e @ '' ('' @ Details e @ '')'')
   \<and> sublist (Code e) (ServiceError_Error e)
   \<and> sublist (Description e) (ServiceError_Error e)"
proof -
  have f: "ServiceError_Error e =
     (if Details e = []
      then Code e @ '': '' @ Description e
      else Code e @ '': '' @ Description e @ '' ('' @ Details e @ '')'')"
    by (simp add: ServiceError_Error_def)
  have c: "sublist (Code e) (ServiceError_Error e)"
    unfolding f by (simp add: sublist_append)
  have d: "sublist (Description e) (ServiceError_Error e)"
    unfolding f sublist_def
    by (cases "Details e = []") (auto intro: exI[of _ "Code e @ '': ''"])
  from f c d show ?thesis by simp
qed

text \<open>
  The example of a full disk: the text joins description and cause, the body is the
  cause's text alone.
\<close>

lemma storage_full_example:
  "ServerError_Error
     (WrapServerErr (Some (ErrorsNew ''disk full'')) ''STORAGE_FULL'' ''cannot persist record'')
     = ''cannot persist record: disk full''
   \<and> GetWrapped
     (WrapServerErr (Some (ErrorsNew ''disk full'')) ''STORAGE_FULL'' ''cannot persist record'')
     = Some (bytes_of_string ''disk full'')"
  by (simp add: WrapServerErr_def GetWrapped_def)

section \<open>Properties of the header operations\<close>

subsection \<open>Auxiliary facts\<close>

lemma observed_MapRef: "Headers m = MapRef r \<Longrightarrow> observed m h = header_view h (MapRef r)"
  by (simp add: observed_def GetHeaders_def ensureHeader_def)




lemma slice_ok_later:
  assumes "slice_ok h s" and "lim_arrays h \<le> lim_arrays h'"
    and "\<And>x. x < lim_arrays h \<Longrightarrow> length (arrays h' x) = length (arrays h x)"
  shows "slice_ok h' s"
  using assms by (cases s) auto



lemma elements_maps_update: "elements (h\<lparr>maps := f\<rparr>) = elements h"
proof
  fix s
  show "elements (h\<lparr>maps := f\<rparr>) s = elements h s"
    by (cases s) simp_all
qed

lemma slice_ok_maps_update: "slice_ok (h\<lparr>maps := f\<rparr>) s = slice_ok h s"
  by (cases s) simp_all

lemma wf_heap_slice: "wf_heap h \<Longrightarrow> maps h r k = Some s \<Longrightarrow> slice_ok h s"
  by (simp add: wf_heap_def)





lemma SetHeader_MapRef:
  "Headers n = MapRef r \<Longrightarrow>
   SetHeader n header v h =
     Inr (n, h\<lparr>arrays := (arrays h)(lim_arrays h := [v]), lim_arrays := Suc (lim_arrays h),
               maps := (maps h)(r := (maps h r)(header \<mapsto> Slice (lim_arrays h) 0 1 1))\<rparr>)"
  by (simp add: SetHeader_def ensureHeader_def slice_literal_def new_array_def)

lemma AddHeader_MapRef:
  "Headers n = MapRef r \<Longrightarrow>
   AddHeader n header v h =
     (let (s, h2) = append_slice (index_map h (MapRef r) header) v h
      in Inr (n, h2\<lparr>maps := (maps h2)(r := (maps h2 r)(header \<mapsto> s))\<rparr>))"
  by (simp add: AddHeader_def ensureHeader_def split: prod.splits)


text \<open>
  The empty heap is well-formed, and \<open>make(nats.Header)\<close> and the decorator of
  \<open>GetOptHeaders\<close> keep a heap so; for \<open>AddHeader\<close> and \<open>SetHeader\<close> this is part of the
  frame property below.
\<close>

lemma wf_heap_empty_heap: "wf_heap empty_heap"
  by (simp add: wf_heap_def empty_heap_def)

lemma wf_heap_make_Header:
  assumes wf: "wf_heap h"
  shows "wf_heap (snd (make_Header h))"
  unfolding wf_heap_def
proof (intro allI impI)
  fix r k s
  assume "maps (snd (make_Header h)) r k = Some s"
  then have "maps h r k = Some s"
    by (simp add: make_Header_def split: if_splits)
  with wf have "slice_ok h s" by (rule wf_heap_slice)
  then show "slice_ok (snd (make_Header h)) s"
    by (rule slice_ok_later) (simp_all add: make_Header_def)
qed

lemma wf_heap_decorated:
  assumes wf: "wf_heap h'" and call: "GetOptHeaders n h m h' = Inr (m', h'')"
  shows "wf_heap h''"
proof (cases "\<exists>rm rn. h'' = h'\<lparr>maps := (maps h')(rm := maps h' rm ++ maps h' rn)\<rparr>")
  case True
  then obtain rm rn where h'': "h'' = h'\<lparr>maps := (maps h')(rm := maps h' rm ++ maps h' rn)\<rparr>"
    by blast
  show ?thesis
    unfolding wf_heap_def
  proof (intro allI impI)
    fix r k s
    assume "maps h'' r k = Some s"
    then have "maps h' r k = Some s \<or> maps h' rn k = Some s \<or> maps h' rm k = Some s"
      by (auto simp: h'' map_add_def split: if_splits option.splits)
    with wf have "slice_ok h' s" by (auto dest: wf_heap_slice)
    then show "slice_ok h'' s" by (simp add: h'' slice_ok_maps_update)
  qed
next
  case False
  with call have "h'' = h'"
    by (auto simp: GetOptHeaders_def split: if_splits option.splits mapref.splits)
  with wf show ?thesis by simp
qed


lemma AddHeader_NilMap: "Headers n = NilMap \<Longrightarrow> AddHeader n header v h = Inl NilMapAssignment"
  by (simp add: AddHeader_def split: prod.splits)

lemma SetHeader_NilMap: "Headers n = NilMap \<Longrightarrow> SetHeader n header v h = Inl NilMapAssignment"
  by (simp add: SetHeader_def split: prod.splits)

lemma Headers_NewServerErr: "Headers (NewServerErr code description) = NilMap"
  by (simp add: NewServerErr_def WrapServerErr_def)

lemma grow_slice_NilSlice:
  "grow_slice NilSlice v h =
     (Slice (lim_arrays h) 0 1 (max 1 (growcap h 0 1)),
      h\<lparr>arrays := (arrays h)(lim_arrays h := v # replicate (max 1 (growcap h 0 1) - 1) []),
        lim_arrays := Suc (lim_arrays h)\<rparr>)"
  by (simp add: grow_slice_def new_array_def Let_def)

lemmas two_maps_defs =
  two_maps_heap_def empty_heap_def error_0_def error_1_def msg_1_def msg_no_header_def

lemmas shared_defs =
  shared_base_def shared_other_def shared_heap0_def shared_heap1_def shared_heap2_def empty_heap_def

subsection \<open>Sharing of the header map\<close>




text \<open>
  Why \<open>AddHeader\<close> needs the proviso: at the well-formed heap where the two maps hold
  slices on one array, \<open>[x]\<close> with a spare cell and \<open>[x, y]\<close>, the call
  \<open>AddHeader("A", "z")\<close> through the first value writes the spare cell, and the second
  value shows \<open>[x, z]\<close>.
\<close>

lemma shared_array_interference:
  "wf_heap spare_heap
   \<and> AddHeader error_0 ''A'' ''z'' spare_heap = Inr (error_0, spare_heap_after)
   \<and> observed error_1 spare_heap ''A'' = Some [''x'', ''y'']
   \<and> observed error_1 spare_heap_after ''A'' = Some [''x'', ''z'']"
proof -
  have "wf_heap spare_heap"
    by (auto simp: wf_heap_def spare_heap_def empty_heap_def split: if_splits)
  then show ?thesis
    by (simp add: AddHeader_def observed_def GetHeaders_def ensureHeader_def spare_heap_def
        spare_heap_after_def empty_heap_def error_0_def error_1_def numeral_2_eq_2)
qed

subsection \<open>Header mutation on a fresh value\<close>

text \<open>
  C2. On the \<open>ServerError\<close> that \<open>NewServerErr\<close> returns, \<open>AddHeader\<close> and \<open>SetHeader\<close>
  end in the run-time panic of an assignment to an entry of a nil map, for all
  arguments: the map that \<open>ensureHeader\<close> makes goes to the callee's copy of the struct,
  and \<open>GetHeaders\<close> returns the nil map for the same reason.
\<close>

theorem header_mutation_fresh_panics:
  "AddHeader (NewServerErr code description) header v h = Inl NilMapAssignment
   \<and> SetHeader (NewServerErr code description) header v h = Inl NilMapAssignment
   \<and> fst (GetHeaders (NewServerErr code description) h) = NilMap"
  by (simp add: AddHeader_NilMap SetHeader_NilMap Headers_NewServerErr GetHeaders_def
      split: prod.splits)

text \<open>
  C3. Starting from a fresh \<open>ServerError\<close>, the calls \<open>AddHeader("X", "a")\<close> and then
  \<open>AddHeader("X", "b")\<close> on the returned value, followed by reading \<open>GetHeaders()["X"]\<close>,
  do not reach the read: the first call panics.
\<close>

theorem AddHeader_twice_fresh_panics:
  "(case AddHeader (NewServerErr code description) ''X'' ''a'' h of
      Inl p \<Rightarrow> Inl p
    | Inr (n1, h1) \<Rightarrow>
        (case AddHeader n1 ''X'' ''b'' h1 of
           Inl p \<Rightarrow> Inl p
         | Inr (n2, h2) \<Rightarrow> Inr (observed n2 h2 ''X'')))
   = Inl NilMapAssignment"
  by (simp add: AddHeader_NilMap Headers_NewServerErr)

text \<open>
  The same calls on a \<open>ServerError\<close> whose \<open>Headers\<close> is a map object without the key
  \<open>X\<close> show \<open>[a]\<close>, then \<open>[a, b]\<close>, and \<open>[c]\<close> after \<open>SetHeader("X", "c")\<close>, whatever
  capacity the runtime chooses.
\<close>

lemma AddHeader_twice_SetHeader_initialised:
  assumes n: "Headers n = MapRef r" and k: "maps h r ''X'' = None"
  shows "\<exists>h1 h2 h3.
     AddHeader n ''X'' ''a'' h = Inr (n, h1) \<and> observed n h1 ''X'' = Some [''a'']
     \<and> AddHeader n ''X'' ''b'' h1 = Inr (n, h2) \<and> observed n h2 ''X'' = Some [''a'', ''b'']
     \<and> SetHeader n ''X'' ''c'' h2 = Inr (n, h3) \<and> observed n h3 ''X'' = Some [''c'']"
proof -
  define c where "c = max 1 (growcap h 0 1)"
  define a where "a = lim_arrays h"
  define h1 where "h1 = h\<lparr>arrays := (arrays h)(a := ''a'' # replicate (c - 1) []),
        lim_arrays := Suc a, maps := (maps h)(r := (maps h r)(''X'' \<mapsto> Slice a 0 1 c))\<rparr>"
  have s1: "AddHeader n ''X'' ''a'' h = Inr (n, h1)"
    using n k by (simp add: AddHeader_MapRef grow_slice_NilSlice h1_def c_def a_def)
  have o1: "observed n h1 ''X'' = Some [''a'']"
    using n by (simp add: observed_MapRef h1_def)
  obtain s h2' where ap: "append_slice (Slice a 0 1 c) ''b'' h1 = (s, h2')"
    by (cases "append_slice (Slice a 0 1 c) ''b'' h1")
  define h2 where "h2 = h2'\<lparr>maps := (maps h2')(r := (maps h2' r)(''X'' \<mapsto> s))\<rparr>"
  have ix: "index_map h1 (MapRef r) ''X'' = Slice a 0 1 c"
    by (simp add: h1_def)
  have s2: "AddHeader n ''X'' ''b'' h1 = Inr (n, h2)"
    unfolding AddHeader_MapRef [OF n] ix ap by (simp add: h2_def)
  have el: "elements h2' s = [''a'', ''b'']"
  proof (cases "1 < c")
    case True
    then have "c = Suc (Suc (c - 2))" by simp
    then obtain j where j: "c = Suc (Suc j)" ..
    with ap show ?thesis by (auto simp: h1_def)
  next
    case False
    with ap show ?thesis
      by (auto simp: grow_slice_def new_array_def Let_def h1_def)
  qed
  have o2: "observed n h2 ''X'' = Some [''a'', ''b'']"
    using n el by (simp add: observed_MapRef h2_def elements_maps_update)
  from n obtain h3 where s3: "SetHeader n ''X'' ''c'' h2 = Inr (n, h3)"
    and h3: "h3 = h2\<lparr>arrays := (arrays h2)(lim_arrays h2 := [''c'']), lim_arrays := Suc (lim_arrays h2),
               maps := (maps h2)(r := (maps h2 r)(''X'' \<mapsto> Slice (lim_arrays h2) 0 1 1))\<rparr>"
    by (simp add: SetHeader_MapRef)
  have o3: "observed n h3 ''X'' = Some [''c'']"
    using n by (simp add: observed_MapRef h3)
  from s1 o1 s2 o2 s3 o3 show ?thesis by blast
qed

subsection \<open>The response decorator\<close>

text \<open>
  C5. When \<open>n\<close> has no headers (a nil or an empty map) the decorator of
  \<open>GetOptHeaders\<close> returns message and heap as they are. Otherwise, on a message without
  a header map it stores the reference \<open>n.Headers\<close> itself in the message; on a message
  with a header map it leaves the message and every other map and array alone, and in
  the message's map each key of \<open>n.Headers\<close> then shows the strings \<open>n\<close> has for it,
  every other key what it showed before.
\<close>

theorem GetOptHeaders_decorates:
  "(len_map_is_0 h (Headers n) \<longrightarrow> GetOptHeaders n h m h' = Inr (m, h'))
   \<and> (\<not> len_map_is_0 h (Headers n) \<and> Header msg = NilMap \<longrightarrow>
        GetOptHeaders n h (Some msg) h' = Inr (Some (msg\<lparr>Header := Headers n\<rparr>), h'))
   \<and> (\<not> len_map_is_0 h (Headers n) \<and> Header msg = MapRef rm \<longrightarrow>
        (\<exists>h''. GetOptHeaders n h (Some msg) h' = Inr (Some msg, h'')
           \<and> (\<forall>k. header_view h'' (MapRef rm) k =
                 (case header_view h' (Headers n) k of
                    Some xs \<Rightarrow> Some xs
                  | None \<Rightarrow> header_view h' (MapRef rm) k))
           \<and> (\<forall>r. r \<noteq> rm \<longrightarrow> maps h'' r = maps h' r)
           \<and> arrays h'' = arrays h'))"
proof (intro conjI impI)
  assume "len_map_is_0 h (Headers n)"
  then show "GetOptHeaders n h m h' = Inr (m, h')"
    by (simp add: GetOptHeaders_def)
next
  assume "\<not> len_map_is_0 h (Headers n) \<and> Header msg = NilMap"
  then show "GetOptHeaders n h (Some msg) h' = Inr (Some (msg\<lparr>Header := Headers n\<rparr>), h')"
    by (cases "Headers n") (simp_all add: GetOptHeaders_def)
next
  assume a: "\<not> len_map_is_0 h (Headers n) \<and> Header msg = MapRef rm"
  then obtain rn where rn: "Headers n = MapRef rn"
    by (cases "Headers n") simp_all
  define h'' where "h'' = h'\<lparr>maps := (maps h')(rm := maps h' rm ++ maps h' rn)\<rparr>"
  have call: "GetOptHeaders n h (Some msg) h' = Inr (Some msg, h'')"
    using a rn by (simp add: GetOptHeaders_def h''_def)
  have view: "header_view h'' (MapRef rm) k =
      (case header_view h' (Headers n) k of
         Some xs \<Rightarrow> Some xs
       | None \<Rightarrow> header_view h' (MapRef rm) k)" for k
    by (cases "maps h' rn k") (simp_all add: h''_def rn map_add_def elements_maps_update)
  have others: "r \<noteq> rm \<longrightarrow> maps h'' r = maps h' r" for r
    by (simp add: h''_def)
  have arr: "arrays h'' = arrays h'"
    by (simp add: h''_def)
  from call view others arr
  show "\<exists>h''. GetOptHeaders n h (Some msg) h' = Inr (Some msg, h'')
           \<and> (\<forall>k. header_view h'' (MapRef rm) k =
                 (case header_view h' (Headers n) k of
                    Some xs \<Rightarrow> Some xs
                  | None \<Rightarrow> header_view h' (MapRef rm) k))
           \<and> (\<forall>r. r \<noteq> rm \<longrightarrow> maps h'' r = maps h' r)
           \<and> arrays h'' = arrays h'"
    by blast
qed

text \<open>
  The three cases at the heap with \<open>{A: [x]}\<close> and \<open>{A: [y]}\<close>: a fresh \<open>ServerError\<close>
  and one with an empty map change nothing; the message without headers receives the
  map at address 0; the
  message \<open>{A: [y]}\<close> decorated by \<open>{A: [x]}\<close> ends with \<open>A\<close> showing \<open>[x]\<close>.
\<close>

theorem GetOptHeaders_decorates_witness:
  "GetOptHeaders (NewServerErr ''E'' ''failed'') two_maps_heap (Some msg_1) two_maps_heap
     = Inr (Some msg_1, two_maps_heap)
   \<and> GetOptHeaders shared_base shared_heap0 (Some msg_1) two_maps_heap
     = Inr (Some msg_1, two_maps_heap)
   \<and> GetOptHeaders error_0 two_maps_heap (Some msg_no_header) two_maps_heap
     = Inr (Some (msg_no_header\<lparr>Header := MapRef 0\<rparr>), two_maps_heap)
   \<and> (\<exists>h''. GetOptHeaders error_0 two_maps_heap (Some msg_1) two_maps_heap
          = Inr (Some msg_1, h'')
        \<and> header_view two_maps_heap (MapRef 1) ''A'' = Some [''y'']
        \<and> header_view h'' (MapRef 1) ''A'' = Some [''x'']
        \<and> header_view h'' (MapRef 1) ''B'' = None)"
proof -
  have e: "len_map_is_0 two_maps_heap (Headers (NewServerErr ''E'' ''failed''))"
    by (simp add: NewServerErr_def WrapServerErr_def)
  have ne: "\<not> len_map_is_0 two_maps_heap (Headers error_0)"
    by (simp add: two_maps_defs)
  have hn: "Header msg_no_header = NilMap" and hy: "Header msg_1 = MapRef 1"
    by (simp_all add: two_maps_defs)
  have x: "header_view two_maps_heap (Headers error_0) ''A'' = Some [''x'']"
    "header_view two_maps_heap (Headers error_0) ''B'' = None"
    "header_view two_maps_heap (MapRef 1) ''A'' = Some [''y'']"
    "header_view two_maps_heap (MapRef 1) ''B'' = None"
    "Headers error_0 = MapRef 0"
    by (simp_all add: two_maps_defs)
  note t1 = GetOptHeaders_decorates
    [of two_maps_heap "NewServerErr ''E'' ''failed''" "Some msg_1" two_maps_heap msg_1 1]
  note t2 = GetOptHeaders_decorates
    [of two_maps_heap error_0 "Some msg_no_header" two_maps_heap msg_no_header 1]
  note t3 = GetOptHeaders_decorates
    [of two_maps_heap error_0 "Some msg_1" two_maps_heap msg_1 1]
  from t1 e have c1: "GetOptHeaders (NewServerErr ''E'' ''failed'') two_maps_heap (Some msg_1)
      two_maps_heap = Inr (Some msg_1, two_maps_heap)"
    by blast
  have e0: "len_map_is_0 shared_heap0 (Headers shared_base)"
    by (simp add: shared_defs)
  from GetOptHeaders_decorates
    [of shared_heap0 shared_base "Some msg_1" two_maps_heap msg_1 1] e0
  have c0: "GetOptHeaders shared_base shared_heap0 (Some msg_1) two_maps_heap
      = Inr (Some msg_1, two_maps_heap)"
    by blast
  from t2 ne hn x(5) have c2: "GetOptHeaders error_0 two_maps_heap (Some msg_no_header)
      two_maps_heap = Inr (Some (msg_no_header\<lparr>Header := MapRef 0\<rparr>), two_maps_heap)"
    by simp
  from t3 ne hy obtain h'' where
    r: "GetOptHeaders error_0 two_maps_heap (Some msg_1) two_maps_heap = Inr (Some msg_1, h'')"
    and v: "\<And>k. header_view h'' (MapRef 1) k =
                 (case header_view two_maps_heap (Headers error_0) k of
                    Some xs \<Rightarrow> Some xs
                  | None \<Rightarrow> header_view two_maps_heap (MapRef 1) k)"
    by blast
  have "header_view h'' (MapRef 1) ''A'' = Some [''x'']" "header_view h'' (MapRef 1) ''B'' = None"
    unfolding v by (simp_all only: x(1-4) option.case)
  with c0 c1 c2 r x(3) show ?thesis by blast
qed

end
